theory Spec2Isabelle
  imports Complex_Main "HOL-Library.Word" "HOL-Library.AList"
begin

section \<open>Bulk video processor: data model\<close>

text \<open>
  The page component keeps a list of \<open>VideoJob\<close> objects and one \<open>Options\<close> value.
  JavaScript numbers are modelled as \<open>real\<close>: every finite double is such a number; NaN and
  the infinities are left out, and the rounding of a floating-point product or difference
  is not modelled. A job's \<open>progress\<close> only ever receives \<open>0\<close>, \<open>100\<close> or the result of
  \<open>Math.round\<close>, so it is an \<open>int\<close>.
\<close>

type_synonym byte = "8 word"

datatype Format = Mp4 | Webm
datatype Resolution = Source | R720p | R1080p
datatype Bitrate = Auto | B1M | B2_5M | B5M

record Options =
  format :: Format
  resolution :: Resolution
  bitrate :: Bitrate
  trimStartSec :: "real option"
  trimEndSec :: "real option"

definition DEFAULT_OPTIONS :: Options where
  "DEFAULT_OPTIONS =
     \<lparr>format = Mp4, resolution = Source, bitrate = Auto, trimStartSec = None, trimEndSec = None\<rparr>"

text \<open>The string values of the two enumerations that are pushed into the arguments.\<close>

fun format_string :: "Format \<Rightarrow> string" where
  "format_string Mp4 = ''mp4''"
| "format_string Webm = ''webm''"

fun bitrate_string :: "Bitrate \<Rightarrow> string" where
  "bitrate_string Auto = ''auto''"
| "bitrate_string B1M = ''1M''"
| "bitrate_string B2_5M = ''2.5M''"
| "bitrate_string B5M = ''5M''"

section \<open>Argument builder\<close>

text \<open>
  An element of the argument array is a string. Two kinds occur: a literal or a file name
  (\<open>Str\<close>), and the decimal text \<open>String(x)\<close> of a number (\<open>NumStr x\<close>); JavaScript's
  number formatting is not modelled, the number itself is kept.
\<close>

datatype arg = Str string | NumStr real

definition buildArgs :: "string \<Rightarrow> string \<Rightarrow> Options \<Rightarrow> arg list" where
  "buildArgs inputName outputName opts =
     [Str ''-y'']
     @ (case trimStartSec opts of
          Some s \<Rightarrow> if s > 0 then [Str ''-ss'', NumStr s] else []
        | None \<Rightarrow> [])
     @ [Str ''-i'', Str inputName]
     @ (case trimEndSec opts of
          Some e \<Rightarrow>
            (case trimStartSec opts of
               Some s \<Rightarrow> if e > s then [Str ''-t'', NumStr (e - s)] else []
             | None \<Rightarrow> [])
        | None \<Rightarrow> [])
     @ (if format opts = Mp4
        then [Str ''-c:v'', Str ''libx264'', Str ''-pix_fmt'', Str ''yuv420p'']
        else [Str ''-c:v'', Str ''libvpx-vp9''])
     @ (if bitrate opts \<noteq> Auto then [Str ''-b:v'', Str (bitrate_string (bitrate opts))] else [])
     @ (if resolution opts = R720p
        then [Str ''-vf'', Str ''scale='min(1280,iw)':'-2':force_original_aspect_ratio=decrease'']
        else if resolution opts = R1080p
        then [Str ''-vf'', Str ''scale='min(1920,iw)':'-2':force_original_aspect_ratio=decrease'']
        else [])
     @ (if format opts = Mp4
        then [Str ''-c:a'', Str ''aac'', Str ''-b:a'', Str ''128k'']
        else [Str ''-c:a'', Str ''libopus'', Str ''-b:a'', Str ''96k''])
     @ [Str outputName]"

text \<open>
  How the engine reads an argument sequence: each of the flags below takes the next
  element as its value, whatever that element is; \<open>-y\<close> and a bare name take none.
  \<open>flag_pairs\<close> lists the (flag, value) pairs in order, \<open>flag_values f\<close> the values given
  to flag \<open>f\<close>. A file called \<open>-t\<close> that follows \<open>-i\<close> is thus an input name, not a flag.
\<close>

definition value_flags :: "string list" where
  "value_flags =
     [''-ss'', ''-i'', ''-t'', ''-c:v'', ''-pix_fmt'', ''-b:v'', ''-vf'', ''-c:a'', ''-b:a'']"

fun flag_pairs :: "arg list \<Rightarrow> (string \<times> arg) list" where
  "flag_pairs [] = []"
| "flag_pairs [a] = []"
| "flag_pairs (NumStr x # v # rest) = flag_pairs (v # rest)"
| "flag_pairs (Str f # v # rest) =
     (if f \<in> set value_flags then (f, v) # flag_pairs rest else flag_pairs (v # rest))"

definition flag_values :: "string \<Rightarrow> arg list \<Rightarrow> arg list" where
  "flag_values f args = map snd (filter (\<lambda>p. fst p = f) (flag_pairs args))"

section \<open>Engine handle manager\<close>

text \<open>
  What a JavaScript \<open>throw\<close> or a rejected promise carries: an \<open>Error\<close> object with its
  \<open>name\<close> and its \<open>message\<close> (\<open>JsError name message\<close>, for instance
  \<open>JsError ''TypeError'' ''Failed to fetch''\<close>), or any other value, kept as its string
  form (the engine rejects with strings). An awaited call returns, throws, or never
  settles.
\<close>

datatype js_exn = JsError string string | JsThrown string

datatype 'a outcome = Returns 'a | Throws js_exn | Hangs

text \<open>
  Module \<open>lib/ffmpeg.ts\<close> holds two variables, \<open>ffmpegSingleton\<close> and \<open>loadingPromise\<close>.
  Every \<open>new FFmpeg()\<close> adds an object to \<open>instances\<close>; a handle is the object's position
  there, and the entry is the object's list of progress listeners in registration order
  (\<open>on("progress", f)\<close> appends \<open>f\<close>). An unsettled promise is the running activation of
  \<open>load\<close>, which holds its own \<open>ffmpeg\<close> object. A callback is named by a number.
\<close>

datatype listener = Forward nat | JobProgress nat

datatype promise = Unsettled nat | Fulfilled nat | Rejected js_exn

record module_state =
  ffmpegSingleton :: "nat option"
  loadingPromise :: "promise option"
  instances :: "listener list list"

definition fresh_module :: module_state where
  "fresh_module = \<lparr>ffmpegSingleton = None, loadingPromise = None, instances = []\<rparr>"

text \<open>
  \<open>getFFmpeg\<close> hands back either the singleton (\<open>Ready\<close>) or the promise stored in
  \<open>loadingPromise\<close> (\<open>Loading\<close>). On the third path it runs \<open>load\<close> up to its first
  \<open>await\<close>: the object is created, the caller's callback, if any, is registered on it,
  and the pending promise is stored.
\<close>

datatype acquired = Ready nat | Loading

definition registered :: "nat option \<Rightarrow> listener list" where
  "registered onProgress = (case onProgress of Some c \<Rightarrow> [Forward c] | None \<Rightarrow> [])"

definition getFFmpeg :: "nat option \<Rightarrow> module_state \<Rightarrow> acquired \<times> module_state" where
  "getFFmpeg onProgress m =
     (case ffmpegSingleton m of
        Some h \<Rightarrow> (Ready h, m)
      | None \<Rightarrow>
          (case loadingPromise m of
             Some p \<Rightarrow> (Loading, m)
           | None \<Rightarrow>
               (Loading,
                m\<lparr>instances := instances m @ [registered onProgress],
                  loadingPromise := Some (Unsettled (length (instances m)))\<rparr>)))"

text \<open>
  The rest of \<open>load\<close>: the three \<open>toBlobURL\<close> fetches and \<open>ffmpeg.load\<close> settle. On
  success the object becomes the singleton and the promise is fulfilled with it; on
  failure the promise is rejected and neither variable is reset.
\<close>

definition load_settles :: "unit outcome \<Rightarrow> module_state \<Rightarrow> module_state" where
  "load_settles r m =
     (case loadingPromise m of
        Some (Unsettled h) \<Rightarrow>
          (case r of
             Returns u \<Rightarrow> m\<lparr>ffmpegSingleton := Some h, loadingPromise := Some (Fulfilled h)\<rparr>
           | Throws e \<Rightarrow> m\<lparr>loadingPromise := Some (Rejected e)\<rparr>
           | Hangs \<Rightarrow> m)
      | _ \<Rightarrow> m)"

text \<open>What a caller that awaits the returned promise observes in state \<open>m\<close>.\<close>

definition awaited :: "module_state \<Rightarrow> acquired \<Rightarrow> nat outcome" where
  "awaited m r =
     (case r of
        Ready h \<Rightarrow> Returns h
      | Loading \<Rightarrow>
          (case loadingPromise m of
             Some (Fulfilled h) \<Rightarrow> Returns h
           | Some (Rejected e) \<Rightarrow> Throws e
           | _ \<Rightarrow> Hangs))"

text \<open>
  A history of the module: calls of \<open>getFFmpeg\<close> interleaved with the moments at which a
  running initialization settles. \<open>run_events\<close> returns what each call handed back.
\<close>

datatype event = Acquire "nat option" | LoadSettles "unit outcome"

fun run_events :: "event list \<Rightarrow> module_state \<Rightarrow> acquired list \<times> module_state" where
  "run_events [] m = ([], m)"
| "run_events (Acquire cb # evs) m =
     (case getFFmpeg cb m of (r, m') \<Rightarrow>
        (case run_events evs m' of (rs, m'') \<Rightarrow> (r # rs, m'')))"
| "run_events (LoadSettles r # evs) m = run_events evs (load_settles r m)"

fun acquire_callbacks :: "event list \<Rightarrow> nat option list" where
  "acquire_callbacks [] = []"
| "acquire_callbacks (Acquire cb # evs) = cb # acquire_callbacks evs"
| "acquire_callbacks (LoadSettles r # evs) = acquire_callbacks evs"

text \<open>
  What a history says about the one initialization, read off the events alone: the first
  call starts it, for engine object \<open>0\<close>, and the first settlement after that call that
  is not \<open>Hangs\<close> decides it. Later settlements find nothing running.
\<close>

fun first_settlement :: "event list \<Rightarrow> unit outcome" where
  "first_settlement [] = Hangs"
| "first_settlement (Acquire cb # evs) = first_settlement evs"
| "first_settlement (LoadSettles r # evs) =
     (case r of Hangs \<Rightarrow> first_settlement evs | Returns u \<Rightarrow> Returns u | Throws e \<Rightarrow> Throws e)"

definition settled_handle :: "unit outcome \<Rightarrow> nat outcome" where
  "settled_handle r = (case r of Returns u \<Rightarrow> Returns 0 | Throws e \<Rightarrow> Throws e | Hangs \<Rightarrow> Hangs)"

fun initialization_outcome :: "event list \<Rightarrow> nat outcome" where
  "initialization_outcome [] = Hangs"
| "initialization_outcome (LoadSettles r # evs) = initialization_outcome evs"
| "initialization_outcome (Acquire cb # evs) = settled_handle (first_settlement evs)"

section \<open>Files, jobs and the page state\<close>

datatype Status = Pending | Processing | Done | Error

text \<open>
  A \<open>File\<close> has a name and a media type; reading its bytes is an awaited call whose
  outcome belongs to the environment of a run (below). A \<open>Blob\<close> is bytes with a media
  type; the archive built by JSZip is kept as its list of named entries.
\<close>

record jsFile =
  name :: string
  type :: string

datatype blob = Blob "byte list" string | ZipBlob "(string \<times> blob) list"

record VideoJob =
  file' :: jsFile
  outputName :: string
  progress :: int
  status :: Status
  error :: "string option"
  downloadUrl :: "nat option"

text \<open>
  \<open>getOutputName\<close> removes the match of \<open>/\.[^/.]+$/\<close>, that is the last dot and what
  follows it when at least one character follows and none of them is a slash, and appends
  the format.
\<close>

definition strip_extension :: "string \<Rightarrow> string" where
  "strip_extension s =
     (let r = rev s;
          ext = takeWhile (\<lambda>c. c \<noteq> CHR ''.'') r;
          rest = dropWhile (\<lambda>c. c \<noteq> CHR ''.'') r
      in if rest = [] \<or> ext = [] \<or> CHR ''/'' \<in> set ext then s else rev (tl rest))"

definition getOutputName :: "jsFile \<Rightarrow> Format \<Rightarrow> string" where
  "getOutputName f fmt = strip_extension (name f) @ ''.'' @ format_string fmt"

text \<open>
  The state the page works on. \<open>jobs\<close> are the job objects: \<open>handleProcess\<close> copies the
  array (\<open>[...jobs]\<close>), not the objects, so \<open>updated\<close> and the React state hold the same
  objects and a write to \<open>job.status\<close> is a write to \<open>jobs\<close>. \<open>shown\<close> lists the arrays
  passed to \<open>setJobs\<close>, in order. \<open>engine\<close> is the module of the handle manager, \<open>calls\<close>
  the file and exec calls made on the engine, \<open>objectURLs\<close> the blobs registered with
  \<open>URL.createObjectURL\<close> (a URL is a position; \<open>None\<close> once revoked) and \<open>downloads\<close> the
  anchors clicked, as download name and blob.
\<close>

datatype engine_call =
    WriteFile string "byte list"
  | Exec "arg list"
  | ReadFile string
  | DeleteFile string

record app_state =
  jobs :: "VideoJob list"
  isProcessing :: bool
  shown :: "VideoJob list list"
  engine :: module_state
  calls :: "engine_call list"
  objectURLs :: "blob option list"
  downloads :: "(string \<times> blob option) list"

definition setJobs :: "app_state \<Rightarrow> app_state" where
  "setJobs st = st\<lparr>shown := shown st @ [jobs st]\<rparr>"

definition update_job :: "nat \<Rightarrow> (VideoJob \<Rightarrow> VideoJob) \<Rightarrow> app_state \<Rightarrow> app_state" where
  "update_job i f st = st\<lparr>jobs := (jobs st)[i := f (jobs st ! i)]\<rparr>"

definition log_call :: "engine_call \<Rightarrow> app_state \<Rightarrow> app_state" where
  "log_call c st = st\<lparr>calls := calls st @ [c]\<rparr>"

definition createObjectURL :: "blob \<Rightarrow> app_state \<Rightarrow> nat \<times> app_state" where
  "createObjectURL b st = (length (objectURLs st), st\<lparr>objectURLs := objectURLs st @ [Some b]\<rparr>)"

definition blob_at :: "app_state \<Rightarrow> nat \<Rightarrow> blob option" where
  "blob_at st url = (if url < length (objectURLs st) then objectURLs st ! url else None)"

definition revokeObjectURL :: "nat \<Rightarrow> app_state \<Rightarrow> app_state" where
  "revokeObjectURL url st = st\<lparr>objectURLs := (objectURLs st)[url := None]\<rparr>"

text \<open>Selecting files replaces the job list by one pending job per video file.\<close>

definition onFilesSelected :: "jsFile list option \<Rightarrow> Options \<Rightarrow> app_state \<Rightarrow> app_state" where
  "onFilesSelected files opts st =
     (case files of
        None \<Rightarrow> st
      | Some fs \<Rightarrow>
          st\<lparr>jobs :=
               map (\<lambda>f. \<lparr>file' = f, outputName = getOutputName f (format opts), progress = 0,
                          status = Pending, error = None, downloadUrl = None\<rparr>)
                   (filter (\<lambda>f. take 6 (type f) = ''video/'') fs)\<rparr>)"

section \<open>Job orchestrator\<close>

text \<open>
  The engine and the File API are outside the repository. A run is given an environment
  that fixes, for the job at each position, how each awaited call of that job settles and
  which fractional progress values the engine reports while \<open>exec\<close> runs; for the handle
  manager it fixes how a running initialization settles. Every behaviour of the engine is
  such an environment. A call that never settles is \<open>Hangs\<close>.
\<close>

record attempt =
  arrayBuffer_result :: "byte list outcome"
  writeFile_result :: "unit outcome"
  exec_progress :: "real list"
  exec_result :: "unit outcome"
  readFile_result :: "byte list outcome"
  deleteInput_result :: "unit outcome"
  deleteOutput_result :: "unit outcome"

record run_env =
  load_result :: "unit outcome"
  attempt_of :: "nat \<Rightarrow> attempt"

text \<open>
  The progress handler of job \<open>i\<close> is the closure
  \<open>job.progress = Math.min(100, Math.round(progress * 100)); setJobs([...updated])\<close>.
  \<open>Math.round\<close> rounds to the nearest integer, halves upwards. The only callback this page
  passes to \<open>getFFmpeg\<close> is the empty function, so a \<open>Forward\<close> listener changes nothing.
  A progress event runs every listener registered on the engine object, in order.
\<close>

definition math_round :: "real \<Rightarrow> int" where
  "math_round x = \<lfloor>x + 1 / 2\<rfloor>"

definition progress_percent :: "real \<Rightarrow> int" where
  "progress_percent r = min 100 (math_round (r * 100))"

definition run_listener :: "real \<Rightarrow> listener \<Rightarrow> app_state \<Rightarrow> app_state" where
  "run_listener r l st =
     (case l of
        Forward c \<Rightarrow> st
      | JobProgress j \<Rightarrow> setJobs (update_job j (\<lambda>job. job\<lparr>progress := progress_percent r\<rparr>) st))"

definition listeners_of :: "nat \<Rightarrow> app_state \<Rightarrow> listener list" where
  "listeners_of h st =
     (if h < length (instances (engine st)) then instances (engine st) ! h else [])"

definition emit_progress :: "nat \<Rightarrow> app_state \<Rightarrow> real \<Rightarrow> app_state" where
  "emit_progress h st r = foldl (\<lambda>s l. run_listener r l s) st (listeners_of h st)"

definition on_progress :: "nat \<Rightarrow> listener \<Rightarrow> app_state \<Rightarrow> app_state" where
  "on_progress h l st =
     st\<lparr>engine := (engine st)\<lparr>instances := (instances (engine st))[h := listeners_of h st @ [l]]\<rparr>\<rparr>"

definition mime_type :: "Format \<Rightarrow> string" where
  "mime_type fmt = (if fmt = Mp4 then ''video/mp4'' else ''video/webm'')"

text \<open>
  \<open>String(err?.message || err)\<close>: the message of an \<open>Error\<close> when it is not empty;
  otherwise the string form of the thrown value. For an \<open>Error\<close> with an empty message
  that is \<open>Error.prototype.toString\<close>, which returns the name (and the empty string when
  the name is empty too); a thrown string is its own string form.
\<close>

definition err_message :: "js_exn \<Rightarrow> string" where
  "err_message err =
     (case err of
        JsError n m \<Rightarrow> if m = [] then n else m
      | JsThrown s \<Rightarrow> s)"

text \<open>
  The body of the \<open>try\<close> block of one loop iteration, for the job at position \<open>i\<close> and the
  engine object \<open>h\<close>. It ends by returning, by throwing the failure of the first awaited
  call that fails, or by hanging. The two \<open>deleteFile\<close> calls sit at the end of the block,
  each in a \<open>try\<close> of its own with an empty \<open>catch\<close>.
\<close>

definition try_block ::
  "attempt \<Rightarrow> Options \<Rightarrow> nat \<Rightarrow> nat \<Rightarrow> string \<Rightarrow> string \<Rightarrow> app_state \<Rightarrow> unit outcome \<times> app_state"
where
  "try_block a opts h i inputName outName st =
     (case arrayBuffer_result a of
        Hangs \<Rightarrow> (Hangs, st)
      | Throws e \<Rightarrow> (Throws e, st)
      | Returns data \<Rightarrow>
          (let st1 = log_call (WriteFile inputName data) st in
           case writeFile_result a of
             Hangs \<Rightarrow> (Hangs, st1)
           | Throws e \<Rightarrow> (Throws e, st1)
           | Returns u \<Rightarrow>
               (let st2 = on_progress h (JobProgress i) st1;
                    args = buildArgs inputName outName opts;
                    st3 = foldl (emit_progress h) (log_call (Exec args) st2) (exec_progress a)
                in case exec_result a of
                     Hangs \<Rightarrow> (Hangs, st3)
                   | Throws e \<Rightarrow> (Throws e, st3)
                   | Returns u \<Rightarrow>
                       (let st4 = log_call (ReadFile outName) st3 in
                        case readFile_result a of
                          Hangs \<Rightarrow> (Hangs, st4)
                        | Throws e \<Rightarrow> (Throws e, st4)
                        | Returns outU8 \<Rightarrow>
                            (case createObjectURL (Blob outU8 (mime_type (format opts))) st4 of
                               (url, st5) \<Rightarrow>
                                 (let st6 = update_job i
                                        (\<lambda>job. job\<lparr>downloadUrl := Some url, outputName := outName,
                                                  status := Done, progress := 100\<rparr>) st5;
                                      st7 = log_call (DeleteFile inputName) st6
                                  in case deleteInput_result a of
                                       Hangs \<Rightarrow> (Hangs, st7)
                                     | _ \<Rightarrow>
                                         (let st8 = log_call (DeleteFile outName) st7 in
                                          case deleteOutput_result a of
                                            Hangs \<Rightarrow> (Hangs, st8)
                                          | _ \<Rightarrow> (Returns (), st8))))))))"

text \<open>
  The loop body: the job is marked as processing, the \<open>try\<close> block runs, the \<open>catch\<close>
  clause turns a failure into the job's error state, and the list is shown again.
\<close>

definition process_job ::
  "attempt \<Rightarrow> Options \<Rightarrow> nat \<Rightarrow> nat \<Rightarrow> app_state \<Rightarrow> unit outcome \<times> app_state"
where
  "process_job a opts h i st =
     (let st0 = setJobs (update_job i (\<lambda>job. job\<lparr>status := Processing, progress := 0\<rparr>) st);
          job = jobs st0 ! i;
          inputName = name (file' job);
          outName = getOutputName (file' job) (format opts)
      in case try_block a opts h i inputName outName st0 of
           (Hangs, st1) \<Rightarrow> (Hangs, st1)
         | (Throws err, st1) \<Rightarrow>
             (Returns (),
              setJobs (update_job i
                 (\<lambda>job. job\<lparr>status := Error, error := Some (err_message err)\<rparr>) st1))
         | (Returns u, st1) \<Rightarrow> (Returns (), setJobs st1))"

text \<open>No step changes the number of jobs; the loop below terminates by it.\<close>

lemma length_jobs_simps [simp]:
  "length (jobs (setJobs st)) = length (jobs st)"
  "length (jobs (update_job i f st)) = length (jobs st)"
  "length (jobs (log_call c st)) = length (jobs st)"
  "length (jobs (on_progress h l st)) = length (jobs st)"
  "length (jobs (snd (createObjectURL b st))) = length (jobs st)"
  by (simp_all add: setJobs_def update_job_def log_call_def on_progress_def createObjectURL_def)

lemma length_jobs_run_listener [simp]:
  "length (jobs (run_listener r l st)) = length (jobs st)"
  by (simp add: run_listener_def split: listener.split)

lemma length_jobs_foldl_listener [simp]:
  "length (jobs (foldl (\<lambda>s l. run_listener r l s) st ls)) = length (jobs st)"
  by (induction ls arbitrary: st) simp_all

lemma length_jobs_emit_progress [simp]:
  "length (jobs (emit_progress h st r)) = length (jobs st)"
  by (simp add: emit_progress_def)

lemma length_jobs_emit_all [simp]:
  "length (jobs (foldl (emit_progress h) st rs)) = length (jobs st)"
  by (induction rs arbitrary: st) simp_all

lemma length_jobs_try_block [simp]:
  "length (jobs (snd (try_block a opts h i inName outName st))) = length (jobs st)"
  by (simp add: try_block_def Let_def createObjectURL_def update_job_def log_call_def
         split: outcome.split prod.split)

lemma length_jobs_process_job [simp]:
  "length (jobs (snd (process_job a opts h i st))) = length (jobs st)"
  by (simp add: process_job_def Let_def split: outcome.split prod.split)
     (metis length_jobs_try_block length_jobs_simps(1,2) snd_conv)

text \<open>
  The loop \<open>for (let i = 0; i < updated.length; i++)\<close>. A hanging call stops the run where
  it is.
\<close>

function process_from ::
  "run_env \<Rightarrow> Options \<Rightarrow> nat \<Rightarrow> nat \<Rightarrow> app_state \<Rightarrow> unit outcome \<times> app_state"
where
  "process_from env opts h i st =
     (if i < length (jobs st)
      then (case process_job (attempt_of env i) opts h i st of
              (Returns u, st') \<Rightarrow> process_from env opts h (Suc i) st'
            | (Throws e, st') \<Rightarrow> (Throws e, st')
            | (Hangs, st') \<Rightarrow> (Hangs, st'))
      else (Returns (), st))"
  by pat_completeness auto
termination
  apply (relation "measure (\<lambda>(env, opts, h, i, st). length (jobs st) - i)")
   apply simp
  apply (metis length_jobs_process_job snd_conv diff_less_mono2 in_measure case_prod_conv lessI)
  done

declare process_from.simps [simp del]

text \<open>
  \<open>await getFFmpeg(...)\<close> with the empty callback, named \<open>0\<close>: the singleton is returned
  at once; otherwise the caller waits for the stored promise, which the environment
  settles. \<open>handleProcess\<close> returns at once on an empty list, propagates a failed
  acquisition to its caller, and otherwise runs the loop.
\<close>

definition acquire :: "run_env \<Rightarrow> app_state \<Rightarrow> nat outcome \<times> app_state" where
  "acquire env st =
     (case getFFmpeg (Some 0) (engine st) of
        (Ready h, m) \<Rightarrow> (Returns h, st\<lparr>engine := m\<rparr>)
      | (Loading, m) \<Rightarrow>
          (let m' = load_settles (load_result env) m
           in (awaited m' Loading, st\<lparr>engine := m'\<rparr>)))"

definition handleProcess :: "run_env \<Rightarrow> Options \<Rightarrow> app_state \<Rightarrow> unit outcome \<times> app_state" where
  "handleProcess env opts st =
     (if length (jobs st) = 0 then (Returns (), st)
      else
        (case acquire env (st\<lparr>isProcessing := True\<rparr>) of
           (Hangs, st1) \<Rightarrow> (Hangs, st1)
         | (Throws e, st1) \<Rightarrow> (Throws e, st1)
         | (Returns ffmpeg, st1) \<Rightarrow>
             (case process_from env opts ffmpeg 0 st1 of
                (Returns u, st2) \<Rightarrow> (Returns (), st2\<lparr>isProcessing := False\<rparr>)
              | (Throws e, st2) \<Rightarrow> (Throws e, st2)
              | (Hangs, st2) \<Rightarrow> (Hangs, st2))))"

section \<open>Archive export\<close>

text \<open>
  \<open>zipBlobsAsZipFile\<close> adds every file to a new JSZip object (\<open>zip.file\<close> replaces an
  entry of the same name), generates the archive, registers it under a fresh object URL,
  clicks an anchor that downloads that URL under \<open>zipName\<close>, and revokes the URL. The
  function has no branch on the number of files.
\<close>

definition zipBlobsAsZipFile ::
  "(string \<times> blob) list \<Rightarrow> string \<Rightarrow> app_state \<Rightarrow> unit outcome \<times> app_state"
where
  "zipBlobsAsZipFile files zipName st =
     (let zip = foldl (\<lambda>z f. AList.update (fst f) (snd f) z) [] files;
          content = ZipBlob zip
      in case createObjectURL content st of
           (url, st1) \<Rightarrow>
             (Returns (),
              revokeObjectURL url
                (st1\<lparr>downloads := downloads st1 @ [(zipName, blob_at st1 url)]\<rparr>)))"

text \<open>
  \<open>handleZip\<close> keeps the jobs that are done and have a download URL, returns at once when
  there are none, and otherwise fetches each blob (a revoked or unknown URL makes the fetch
  fail, and \<open>Promise.all\<close> fail with it) and passes them to \<open>zipBlobsAsZipFile\<close>.
\<close>

definition fetch_blob :: "app_state \<Rightarrow> nat option \<Rightarrow> blob outcome" where
  "fetch_blob st url =
     (case url of
        None \<Rightarrow> Throws (JsError ''TypeError'' ''Failed to fetch'')
      | Some u \<Rightarrow>
          (case blob_at st u of
             None \<Rightarrow> Throws (JsError ''TypeError'' ''Failed to fetch'')
           | Some b \<Rightarrow> Returns b))"

fun fetch_all :: "app_state \<Rightarrow> VideoJob list \<Rightarrow> (string \<times> blob) list outcome" where
  "fetch_all st [] = Returns []"
| "fetch_all st (j # js) =
     (case fetch_blob st (downloadUrl j) of
        Returns b \<Rightarrow>
          (case fetch_all st js of
             Returns bs \<Rightarrow> Returns ((outputName j, b) # bs)
           | Throws e \<Rightarrow> Throws e
           | Hangs \<Rightarrow> Hangs)
      | Throws e \<Rightarrow> Throws e
      | Hangs \<Rightarrow> Hangs)"

definition handleZip :: "app_state \<Rightarrow> unit outcome \<times> app_state" where
  "handleZip st =
     (let ready = filter (\<lambda>j. status j = Done \<and> downloadUrl j \<noteq> None) (jobs st)
      in if length ready = 0 then (Returns (), st)
         else (case fetch_all st ready of
                 Returns blobs \<Rightarrow> zipBlobsAsZipFile blobs ''processed-videos.zip'' st
               | Throws e \<Rightarrow> (Throws e, st)
               | Hangs \<Rightarrow> (Hangs, st)))"

section \<open>Reading a run off its environment\<close>

text \<open>
  The properties below are stated with these functions. For one job: how its \<open>try\<close> block
  ends (\<open>attempt_outcome\<close>), the output bytes it reads if it gets that far
  (\<open>output_read\<close>), the engine calls it makes (\<open>attempt_calls\<close>), and the status and error
  message the job is left with. \<open>finished\<close> is the assignment on the success path.
\<close>

definition attempt_outcome :: "attempt \<Rightarrow> unit outcome" where
  "attempt_outcome a =
     (case arrayBuffer_result a of
        Hangs \<Rightarrow> Hangs
      | Throws e \<Rightarrow> Throws e
      | Returns d \<Rightarrow>
          (case writeFile_result a of
             Hangs \<Rightarrow> Hangs
           | Throws e \<Rightarrow> Throws e
           | Returns u \<Rightarrow>
               (case exec_result a of
                  Hangs \<Rightarrow> Hangs
                | Throws e \<Rightarrow> Throws e
                | Returns u \<Rightarrow>
                    (case readFile_result a of
                       Hangs \<Rightarrow> Hangs
                     | Throws e \<Rightarrow> Throws e
                     | Returns b \<Rightarrow>
                         (if deleteInput_result a = Hangs \<or> deleteOutput_result a = Hangs
                          then Hangs else Returns ())))))"

definition output_read :: "attempt \<Rightarrow> byte list option" where
  "output_read a =
     (case arrayBuffer_result a of
        Returns d \<Rightarrow>
          (case writeFile_result a of
             Returns u \<Rightarrow>
               (case exec_result a of
                  Returns v \<Rightarrow> (case readFile_result a of Returns b \<Rightarrow> Some b | _ \<Rightarrow> None)
                | _ \<Rightarrow> None)
           | _ \<Rightarrow> None)
      | _ \<Rightarrow> None)"

definition finished :: "nat \<Rightarrow> string \<Rightarrow> VideoJob \<Rightarrow> VideoJob" where
  "finished url outName job =
     job\<lparr>downloadUrl := Some url, outputName := outName, status := Done, progress := 100\<rparr>"

definition final_status :: "attempt \<Rightarrow> Status" where
  "final_status a = (case attempt_outcome a of Throws e \<Rightarrow> Error | _ \<Rightarrow> Done)"

definition final_error :: "attempt \<Rightarrow> string option \<Rightarrow> string option" where
  "final_error a old = (case attempt_outcome a of Throws e \<Rightarrow> Some (err_message e) | _ \<Rightarrow> old)"

definition attempt_calls :: "attempt \<Rightarrow> string \<Rightarrow> string \<Rightarrow> Options \<Rightarrow> engine_call list" where
  "attempt_calls a inName outName opts =
     (case arrayBuffer_result a of
        Returns d \<Rightarrow>
          WriteFile inName d #
          (case writeFile_result a of
             Returns u \<Rightarrow>
               Exec (buildArgs inName outName opts) #
               (case exec_result a of
                  Returns v \<Rightarrow>
                    ReadFile outName #
                    (case readFile_result a of
                       Returns b \<Rightarrow>
                         DeleteFile inName #
                         (if deleteInput_result a = Hangs then [] else [DeleteFile outName])
                     | _ \<Rightarrow> [])
                | _ \<Rightarrow> [])
           | _ \<Rightarrow> [])
      | _ \<Rightarrow> [])"

definition job_calls :: "run_env \<Rightarrow> Options \<Rightarrow> jsFile list \<Rightarrow> nat \<Rightarrow> engine_call list" where
  "job_calls env opts files k =
     attempt_calls (attempt_of env k) (name (files ! k))
       (getOutputName (files ! k) (format opts)) opts"

text \<open>
  The states of the handle manager that a history can reach from the freshly loaded
  module: before the first call nothing exists; afterwards there is exactly one engine
  object, handle \<open>0\<close>, whether its initialization is running, has succeeded or has failed.
\<close>

definition module_inv :: "module_state \<Rightarrow> bool" where
  "module_inv m =
     (case loadingPromise m of
        None \<Rightarrow> ffmpegSingleton m = None \<and> instances m = []
      | Some (Unsettled h) \<Rightarrow> ffmpegSingleton m = None \<and> h = 0 \<and> length (instances m) = 1
      | Some (Fulfilled h) \<Rightarrow> ffmpegSingleton m = Some 0 \<and> h = 0 \<and> length (instances m) = 1
      | Some (Rejected e) \<Rightarrow> ffmpegSingleton m = None \<and> length (instances m) = 1)"

section \<open>Scenarios\<close>

text \<open>
  Concrete pages and environments on which the model is run below: the two files of the
  specification's example, \<open>a.mov\<close> and the corrupt \<open>b.mov\<close> whose output cannot be read,
  and an engine that reports a negative progress value.
\<close>

definition a_mov :: jsFile where
  "a_mov = \<lparr>name = ''a.mov'', type = ''video/quicktime''\<rparr>"

definition b_mov :: jsFile where
  "b_mov = \<lparr>name = ''b.mov'', type = ''video/quicktime''\<rparr>"

definition example_options :: Options where
  "example_options =
     \<lparr>format = Mp4, resolution = R720p, bitrate = Auto, trimStartSec = Some 2, trimEndSec = Some 8\<rparr>"

definition fresh_page :: app_state where
  "fresh_page =
     \<lparr>jobs = [], isProcessing = False, shown = [], engine = fresh_module, calls = [],
      objectURLs = [], downloads = []\<rparr>"

definition example_page :: app_state where
  "example_page = onFilesSelected (Some [a_mov, b_mov]) example_options fresh_page"

definition good_attempt :: attempt where
  "good_attempt =
     \<lparr>arrayBuffer_result = Returns [1, 2, 3], writeFile_result = Returns (),
      exec_progress = [1 / 2, 1], exec_result = Returns (), readFile_result = Returns [4, 5],
      deleteInput_result = Returns (), deleteOutput_result = Returns ()\<rparr>"

definition corrupt_attempt :: attempt where
  "corrupt_attempt =
     \<lparr>arrayBuffer_result = Returns [9], writeFile_result = Returns (),
      exec_progress = [], exec_result = Returns (),
      readFile_result = Throws (JsThrown ''ErrnoError: FS error''),
      deleteInput_result = Returns (), deleteOutput_result = Returns ()\<rparr>"

definition example_env :: run_env where
  "example_env =
     \<lparr>load_result = Returns (),
      attempt_of = (\<lambda>k. if k = 1 then corrupt_attempt else good_attempt)\<rparr>"

definition negative_progress_env :: run_env where
  "negative_progress_env =
     \<lparr>load_result = Returns (),
      attempt_of = (\<lambda>k. good_attempt\<lparr>exec_progress := [- 1 / 2]\<rparr>)\<rparr>"

definition one_job_page :: app_state where
  "one_job_page = onFilesSelected (Some [a_mov]) example_options fresh_page"


definition failing_load_env :: run_env where
  "failing_load_env =
     \<lparr>load_result = Throws (JsError ''TypeError'' ''Failed to fetch''), attempt_of = (\<lambda>k. good_attempt)\<rparr>"

definition later_progress_env :: run_env where
  "later_progress_env =
     \<lparr>load_result = Returns (),
      attempt_of = (\<lambda>k. if k = 1 then good_attempt\<lparr>exec_progress := [1 / 2]\<rparr> else good_attempt)\<rparr>"

section \<open>Properties of the argument builder\<close>

lemma flag_pairs_nullary:
  "f \<notin> set value_flags \<Longrightarrow> flag_pairs (Str f # xs) = flag_pairs xs"
  by (cases xs) simp_all

lemma flag_pairs_valued:
  "f \<in> set value_flags \<Longrightarrow> flag_pairs (Str f # v # rest) = (f, v) # flag_pairs rest"
  by simp

lemma flag_pairs_last: "flag_pairs [Str a] = []"
  by simp

lemma in_value_flags:
  "''-ss'' \<in> set value_flags" "''-i'' \<in> set value_flags" "''-t'' \<in> set value_flags"
  "''-c:v'' \<in> set value_flags" "''-pix_fmt'' \<in> set value_flags" "''-b:v'' \<in> set value_flags"
  "''-vf'' \<in> set value_flags" "''-c:a'' \<in> set value_flags" "''-b:a'' \<in> set value_flags"
  "''-y'' \<notin> set value_flags"
  by (simp_all add: value_flags_def)

text \<open>
  The (flag, value) pairs of a built sequence, segment by segment in the order of
  \<open>buildArgs\<close>. The input and output names are arbitrary strings here.
\<close>

lemma flag_pairs_buildArgs:
  "flag_pairs (buildArgs inName outName opts) =
     (case trimStartSec opts of
          Some s \<Rightarrow> if s > 0 then [(''-ss'', NumStr s)] else []
        | None \<Rightarrow> [])
     @ [(''-i'', Str inName)]
     @ (case trimEndSec opts of
          Some e \<Rightarrow>
            (case trimStartSec opts of
               Some s \<Rightarrow> if e > s then [(''-t'', NumStr (e - s))] else []
             | None \<Rightarrow> [])
        | None \<Rightarrow> [])
     @ (if format opts = Mp4
        then [(''-c:v'', Str ''libx264''), (''-pix_fmt'', Str ''yuv420p'')]
        else [(''-c:v'', Str ''libvpx-vp9'')])
     @ (if bitrate opts \<noteq> Auto then [(''-b:v'', Str (bitrate_string (bitrate opts)))] else [])
     @ (if resolution opts = R720p
        then [(''-vf'', Str ''scale='min(1280,iw)':'-2':force_original_aspect_ratio=decrease'')]
        else if resolution opts = R1080p
        then [(''-vf'', Str ''scale='min(1920,iw)':'-2':force_original_aspect_ratio=decrease'')]
        else [])
     @ (if format opts = Mp4
        then [(''-c:a'', Str ''aac''), (''-b:a'', Str ''128k'')]
        else [(''-c:a'', Str ''libopus''), (''-b:a'', Str ''96k'')])"
  unfolding buildArgs_def
  by (simp add: in_value_flags flag_pairs_nullary flag_pairs_valued flag_pairs_last
        del: flag_pairs.simps split: option.split)

text \<open>
  Claim C6 as stated: the duration-limit flag \<open>-t\<close> appears exactly when the trim end is
  set and greater than the trim start. With the trim start left unset and the trim end set
  to 8 seconds no \<open>-t\<close> is built, although the input is then read from its beginning;
  with the trim start set to 0 the same end gives \<open>-t 8\<close>.
\<close>

theorem buildArgs_trim_end_without_start:
  "trimStartSec (DEFAULT_OPTIONS\<lparr>trimEndSec := Some 8\<rparr>) = None
   \<and> trimEndSec (DEFAULT_OPTIONS\<lparr>trimEndSec := Some 8\<rparr>) = Some 8
   \<and> flag_values ''-t'' (buildArgs ''a.mov'' ''a.mp4'' (DEFAULT_OPTIONS\<lparr>trimEndSec := Some 8\<rparr>))
       = []
   \<and> flag_values ''-t''
         (buildArgs ''a.mov'' ''a.mp4'' (DEFAULT_OPTIONS\<lparr>trimStartSec := Some 0, trimEndSec := Some 8\<rparr>))
       = [NumStr 8]"
  by (simp add: flag_pairs_buildArgs flag_values_def DEFAULT_OPTIONS_def)

text \<open>
  Claim C6, amended. For every options value and every pair of names, the built sequence
  gives the duration-limit flag \<open>-t\<close> exactly one value, \<open>String(trimEndSec - trimStartSec)\<close>,
  when both trim bounds are set and the end is greater than the start, and holds no \<open>-t\<close>
  otherwise: when the end is unset, when the start is unset, and when the end is not
  greater than the start. The builder is a total function: it has no failing branch.
\<close>

theorem buildArgs_duration_limit:
  "flag_values ''-t'' (buildArgs inName outName opts) =
     (case (trimStartSec opts, trimEndSec opts) of
        (Some s, Some e) \<Rightarrow> if e > s then [NumStr (e - s)] else []
      | (Some s, None) \<Rightarrow> []
      | (None, _) \<Rightarrow> [])"
  by (simp add: flag_pairs_buildArgs flag_values_def split: option.split)

text \<open>
  Claim C7. For every options value and every pair of names, the built sequence holds
  exactly one video codec pair \<open>-c:v\<close> and exactly one audio codec pair \<open>-c:a\<close>; their
  values are those of the chosen container (libx264 with aac for mp4, libvpx-vp9 with
  libopus for webm), and a container is one of exactly these two.
\<close>

theorem buildArgs_one_codec_pair_each:
  "flag_values ''-c:v'' (buildArgs inName outName opts) =
      [Str (case format opts of Mp4 \<Rightarrow> ''libx264'' | Webm \<Rightarrow> ''libvpx-vp9'')]
   \<and> flag_values ''-c:a'' (buildArgs inName outName opts) =
      [Str (case format opts of Mp4 \<Rightarrow> ''aac'' | Webm \<Rightarrow> ''libopus'')]
   \<and> (format opts = Mp4 \<or> format opts = Webm)"
  by (cases "format opts") (simp_all add: flag_pairs_buildArgs flag_values_def split: option.split)

section \<open>Properties of the engine handle manager\<close>

lemma module_inv_fresh: "module_inv fresh_module"
  by (simp add: module_inv_def fresh_module_def)

lemma module_inv_getFFmpeg: "module_inv m \<Longrightarrow> module_inv (snd (getFFmpeg cb m))"
  by (auto simp: module_inv_def getFFmpeg_def split: option.splits promise.splits)

lemma module_inv_load_settles: "module_inv m \<Longrightarrow> module_inv (load_settles r m)"
  by (auto simp: module_inv_def load_settles_def split: option.splits promise.splits outcome.splits)

lemma getFFmpeg_started:
  "loadingPromise m \<noteq> None \<Longrightarrow> module_inv m \<Longrightarrow> snd (getFFmpeg cb m) = m"
  by (auto simp: module_inv_def getFFmpeg_def split: option.splits promise.splits)

lemma settled_stable:
  "module_inv m \<Longrightarrow> loadingPromise m = Some p \<Longrightarrow> p \<noteq> Unsettled 0 \<Longrightarrow> 
   snd (run_events evs m) = m"
proof (induction evs)
  case Nil then show ?case by simp
next
  case (Cons ev evs)
  show ?case
  proof (cases ev)
    case (Acquire cb)
    have "getFFmpeg cb m = (fst (getFFmpeg cb m), m)"
      using getFFmpeg_started[of m cb] Cons.prems by (metis option.distinct(1) prod.collapse)
    then show ?thesis using Acquire Cons by (auto split: prod.splits)
  next
    case (LoadSettles r)
    have "load_settles r m = m" using Cons.prems
      by (auto simp: load_settles_def module_inv_def split: promise.splits)
    then show ?thesis using LoadSettles Cons by simp
  qed
qed

lemma run_events_invariant:
  "module_inv m \<Longrightarrow> run_events evs m = (rs, m') \<Longrightarrow>
     module_inv m'
     \<and> (\<forall>r\<in>set rs. awaited m' r = awaited m' Loading)
     \<and> (rs \<noteq> [] \<longrightarrow> loadingPromise m' \<noteq> None)
     \<and> (loadingPromise m \<noteq> None \<longrightarrow> loadingPromise m' \<noteq> None \<and> instances m' = instances m)
     \<and> (rs = [] \<longrightarrow> instances m' = instances m)"
proof (induction evs arbitrary: m rs)
  case Nil
  then show ?case by auto
next
  case (Cons ev evs)
  show ?case
  proof (cases ev)
    case (Acquire cb)
    obtain r m1 where g: "getFFmpeg cb m = (r, m1)" by (cases "getFFmpeg cb m")
    obtain rs1 where run: "run_events evs m1 = (rs1, m')" and rs: "rs = r # rs1"
      using Cons.prems(2) Acquire g by (auto split: prod.splits)
    have inv1: "module_inv m1" using module_inv_getFFmpeg[OF Cons.prems(1), of cb] g by simp
    have started: "loadingPromise m1 \<noteq> None"
      using g Cons.prems(1)
      by (auto simp: getFFmpeg_def module_inv_def split: option.splits promise.splits)
    have keep: "loadingPromise m \<noteq> None \<longrightarrow> m1 = m"
      using getFFmpeg_started[of m cb] Cons.prems(1) g by auto
    note IH = Cons.IH[OF inv1 run]
    have first: "awaited m' r = awaited m' Loading"
    proof (cases r)
      case Loading then show ?thesis by simp
    next
      case (Ready h)
      then have sing: "ffmpegSingleton m = Some h" and same: "m1 = m"
        using g by (auto simp: getFFmpeg_def split: option.splits)
      then have lp: "loadingPromise m = Some (Fulfilled 0)" and h0: "h = 0"
        using Cons.prems(1) by (auto simp: module_inv_def split: option.splits promise.splits)
      have "snd (run_events evs m) = m"
        using settled_stable[OF Cons.prems(1) lp] by simp
      then have "m' = m" using run same by simp
      then show ?thesis using lp Ready h0 by (simp add: awaited_def)
    qed
    show ?thesis using IH first rs started keep by auto
  next
    case (LoadSettles r)
    have run: "run_events evs (load_settles r m) = (rs, m')"
      using Cons.prems(2) LoadSettles by simp
    have inv1: "module_inv (load_settles r m)"
      by (rule module_inv_load_settles[OF Cons.prems(1)])
    have keep: "instances (load_settles r m) = instances m"
      "loadingPromise m \<noteq> None \<longleftrightarrow> loadingPromise (load_settles r m) \<noteq> None"
      by (auto simp: load_settles_def split: option.splits promise.splits outcome.splits)
    show ?thesis using Cons.IH[OF inv1 run] keep by auto
  qed
qed

lemma awaited_run_events:
  "module_inv m \<Longrightarrow>
   awaited (snd (run_events evs m)) Loading =
     (case loadingPromise m of
        None \<Rightarrow> initialization_outcome evs
      | Some (Unsettled h) \<Rightarrow> settled_handle (first_settlement evs)
      | Some (Fulfilled h) \<Rightarrow> Returns h
      | Some (Rejected e) \<Rightarrow> Throws e)"
proof (induction evs arbitrary: m)
  case Nil
  then show ?case
    by (auto simp: awaited_def settled_handle_def split: option.splits promise.splits)
next
  case (Cons ev evs)
  show ?case
  proof (cases ev)
    case (Acquire cb)
    let ?m1 = "snd (getFFmpeg cb m)"
    have inv1: "module_inv ?m1" by (rule module_inv_getFFmpeg[OF Cons.prems])
    have run: "snd (run_events (ev # evs) m) = snd (run_events evs ?m1)"
      using Acquire by (simp split: prod.splits)
    have lp: "loadingPromise ?m1 =
        (case loadingPromise m of None \<Rightarrow> Some (Unsettled 0) | Some p \<Rightarrow> Some p)"
      using Cons.prems
      by (auto simp: getFFmpeg_def module_inv_def split: option.splits promise.splits)
    have init: "initialization_outcome (ev # evs) = settled_handle (first_settlement evs)"
      "first_settlement (ev # evs) = first_settlement evs"
      using Acquire by simp_all
    show ?thesis
      unfolding run init
      using Cons.IH[OF inv1] lp
      by (auto split: option.splits promise.splits)
  next
    case (LoadSettles r)
    have inv1: "module_inv (load_settles r m)"
      by (rule module_inv_load_settles[OF Cons.prems])
    have lp: "loadingPromise (load_settles r m) =
        (case loadingPromise m of
           Some (Unsettled h) \<Rightarrow>
             (case r of Returns u \<Rightarrow> Some (Fulfilled h) | Throws e \<Rightarrow> Some (Rejected e)
              | Hangs \<Rightarrow> Some (Unsettled h))
         | other \<Rightarrow> other)"
      by (auto simp: load_settles_def split: option.splits promise.splits outcome.splits)
    show ?thesis
      using Cons.IH[OF inv1] lp LoadSettles Cons.prems
      by (auto simp: settled_handle_def module_inv_def
            split: option.splits promise.splits outcome.splits)
  qed
qed

text \<open>
  Claim C4. Take any history of calls and settlements that starts from the freshly loaded
  module, let \<open>rs\<close> be what the calls handed back and \<open>m\<close> the state reached. Then
  \<^item> exactly one engine object was ever created if a call was made, and none otherwise;
  \<^item> what a caller of the stored promise observes is the outcome of the one
    initialization as the history settles it: handle \<open>0\<close> when it succeeds, the failure
    \<open>e\<close> when it fails with \<open>e\<close>, nothing yet while it is running;
  \<^item> every caller of the history observes that same outcome;
  \<^item> once a call was made, a further call changes nothing in the module (it starts no
    second initialization) and observes that same outcome;
  \<^item> once the initialization has succeeded, every call gets handle \<open>0\<close> at once;
  \<^item> once it has failed with \<open>e\<close>, every caller observes \<open>e\<close>, and a further call is handed
    the same rejected promise with the module unchanged: nothing is retried.
\<close>

theorem getFFmpeg_initializes_once:
  "run_events evs fresh_module = (rs, m) \<Longrightarrow>
     length (instances m) = (if rs = [] then 0 else 1)
     \<and> awaited m Loading = initialization_outcome evs
     \<and> (\<forall>r\<in>set rs. awaited m r = initialization_outcome evs)
     \<and> (rs \<noteq> [] \<longrightarrow> (\<forall>cb. snd (getFFmpeg cb m) = m
                        \<and> awaited m (fst (getFFmpeg cb m)) = initialization_outcome evs))
     \<and> (\<forall>h. initialization_outcome evs = Returns h \<longrightarrow>
            h = 0 \<and> (\<forall>cb. getFFmpeg cb m = (Ready 0, m)))
     \<and> (\<forall>e. initialization_outcome evs = Throws e \<longrightarrow>
            (\<forall>r\<in>set rs. awaited m r = Throws e) \<and> (\<forall>cb. getFFmpeg cb m = (Loading, m)))"
proof -
  assume run: "run_events evs fresh_module = (rs, m)"
  note I = run_events_invariant[OF module_inv_fresh run]
  have inv: "module_inv m" using I by simp
  have out: "awaited m Loading = initialization_outcome evs"
    using awaited_run_events[OF module_inv_fresh, of evs] run by (simp add: fresh_module_def)
  have len: "length (instances m) = (if rs = [] then 0 else 1)"
    using I inv by (auto simp: module_inv_def fresh_module_def split: option.splits promise.splits)
  have same: "\<forall>r\<in>set rs. awaited m r = awaited m Loading" using I by simp
  have again: "rs \<noteq> [] \<longrightarrow> (\<forall>cb. snd (getFFmpeg cb m) = m
                        \<and> awaited m (fst (getFFmpeg cb m)) = awaited m Loading)"
    using I inv
    by (auto simp: module_inv_def getFFmpeg_def awaited_def split: option.splits promise.splits)
  have fin: "\<forall>h. awaited m Loading = Returns h \<longrightarrow> h = 0 \<and> (\<forall>cb. getFFmpeg cb m = (Ready 0, m))"
    using inv
    by (auto simp: module_inv_def getFFmpeg_def awaited_def split: option.splits promise.splits)
  have failed: "\<forall>e. awaited m Loading = Throws e \<longrightarrow>
            (\<forall>r\<in>set rs. awaited m r = Throws e) \<and> (\<forall>cb. getFFmpeg cb m = (Loading, m))"
    using inv same
    by (auto simp: module_inv_def getFFmpeg_def awaited_def split: option.splits promise.splits)
  show ?thesis using len same again fin failed unfolding out by blast
qed

theorem getFFmpeg_initializes_once_witness:
  "run_events [Acquire (Some 1), Acquire (Some 2), LoadSettles (Returns ()), Acquire None]
       fresh_module
     = ([Loading, Loading, Ready 0],
        \<lparr>ffmpegSingleton = Some 0, loadingPromise = Some (Fulfilled 0),
         instances = [[Forward 1]]\<rparr>)
   \<and> initialization_outcome
         [Acquire (Some 1), Acquire (Some 2), LoadSettles (Returns ()), Acquire None]
       = Returns 0
   \<and> awaited \<lparr>ffmpegSingleton = Some 0, loadingPromise = Some (Fulfilled 0),
         instances = [[Forward 1]]\<rparr> Loading = Returns 0
   \<and> getFFmpeg (Some 3) \<lparr>ffmpegSingleton = Some 0, loadingPromise = Some (Fulfilled 0),
         instances = [[Forward 1]]\<rparr>
       = (Ready 0, \<lparr>ffmpegSingleton = Some 0, loadingPromise = Some (Fulfilled 0),
         instances = [[Forward 1]]\<rparr>)
   \<and> run_events
         [Acquire (Some 1), Acquire None,
          LoadSettles (Throws (JsError ''TypeError'' ''Failed to fetch'')),
          Acquire (Some 2), LoadSettles (Returns ())]
         fresh_module
     = ([Loading, Loading, Loading],
        \<lparr>ffmpegSingleton = None,
         loadingPromise = Some (Rejected (JsError ''TypeError'' ''Failed to fetch'')),
         instances = [[Forward 1]]\<rparr>)
   \<and> initialization_outcome
         [Acquire (Some 1), Acquire None,
          LoadSettles (Throws (JsError ''TypeError'' ''Failed to fetch'')),
          Acquire (Some 2), LoadSettles (Returns ())]
       = Throws (JsError ''TypeError'' ''Failed to fetch'')
   \<and> awaited \<lparr>ffmpegSingleton = None,
         loadingPromise = Some (Rejected (JsError ''TypeError'' ''Failed to fetch'')),
         instances = [[Forward 1]]\<rparr> Loading
       = Throws (JsError ''TypeError'' ''Failed to fetch'')
   \<and> getFFmpeg (Some 3) \<lparr>ffmpegSingleton = None,
         loadingPromise = Some (Rejected (JsError ''TypeError'' ''Failed to fetch'')),
         instances = [[Forward 1]]\<rparr>
       = (Loading, \<lparr>ffmpegSingleton = None,
         loadingPromise = Some (Rejected (JsError ''TypeError'' ''Failed to fetch'')),
         instances = [[Forward 1]]\<rparr>)"
proof -
  have ok:
    "run_events [Acquire (Some 1), Acquire (Some 2), LoadSettles (Returns ()), Acquire None]
       fresh_module
     = ([Loading, Loading, Ready 0],
        \<lparr>ffmpegSingleton = Some 0, loadingPromise = Some (Fulfilled 0),
         instances = [[Forward 1]]\<rparr>)"
    by (simp add: getFFmpeg_def load_settles_def fresh_module_def registered_def)
  have bad:
    "run_events
         [Acquire (Some 1), Acquire None,
          LoadSettles (Throws (JsError ''TypeError'' ''Failed to fetch'')),
          Acquire (Some 2), LoadSettles (Returns ())]
         fresh_module
     = ([Loading, Loading, Loading],
        \<lparr>ffmpegSingleton = None,
         loadingPromise = Some (Rejected (JsError ''TypeError'' ''Failed to fetch'')),
         instances = [[Forward 1]]\<rparr>)"
    by (simp add: getFFmpeg_def load_settles_def fresh_module_def registered_def)
  have outs:
    "initialization_outcome
         [Acquire (Some 1), Acquire (Some 2), LoadSettles (Returns ()), Acquire None]
       = Returns 0"
    "initialization_outcome
         [Acquire (Some 1), Acquire None,
          LoadSettles (Throws (JsError ''TypeError'' ''Failed to fetch'')),
          Acquire (Some 2), LoadSettles (Returns ())]
       = Throws (JsError ''TypeError'' ''Failed to fetch'')"
    by (simp_all add: settled_handle_def)
  show ?thesis
    using getFFmpeg_initializes_once[OF ok] getFFmpeg_initializes_once[OF bad] ok bad outs
    by simp
qed

lemma instances_run_events:
  "module_inv m \<Longrightarrow>
   instances (snd (run_events evs m)) =
     (if loadingPromise m = None
      then (case acquire_callbacks evs of [] \<Rightarrow> [] | cb # later \<Rightarrow> [registered cb])
      else instances m)"
proof (induction evs arbitrary: m)
  case Nil
  then show ?case by (auto simp: module_inv_def split: option.splits)
next
  case (Cons ev evs)
  show ?case
  proof (cases ev)
    case (Acquire cb)
    let ?m1 = "snd (getFFmpeg cb m)"
    have inv1: "module_inv ?m1" by (rule module_inv_getFFmpeg[OF Cons.prems])
    have started: "loadingPromise ?m1 \<noteq> None"
      using Cons.prems
      by (auto simp: getFFmpeg_def module_inv_def split: option.splits promise.splits)
    have inst: "instances ?m1 = (if loadingPromise m = None then [registered cb] else instances m)"
      using Cons.prems by (auto simp: getFFmpeg_def module_inv_def split: option.splits promise.splits)
    have "snd (run_events (ev # evs) m) = snd (run_events evs ?m1)"
      using Acquire by (simp split: prod.splits)
    then show ?thesis using Cons.IH[OF inv1] started inst Acquire by simp
  next
    case (LoadSettles r)
    have inv1: "module_inv (load_settles r m)"
      by (rule module_inv_load_settles[OF Cons.prems])
    have keep: "instances (load_settles r m) = instances m"
      "loadingPromise m = None \<longleftrightarrow> loadingPromise (load_settles r m) = None"
      by (auto simp: load_settles_def split: option.splits promise.splits outcome.splits)
    show ?thesis using Cons.IH[OF inv1] keep LoadSettles by simp
  qed
qed

text \<open>
  Claim C10. After any history that starts from the freshly loaded module, the listeners
  registered by \<open>getFFmpeg\<close> are those of the first call alone: its callback if it passed
  one, nothing otherwise. The callbacks of all later calls are registered nowhere.
\<close>

theorem getFFmpeg_registers_first_callback_only:
  "instances (snd (run_events evs fresh_module)) =
     (case acquire_callbacks evs of [] \<Rightarrow> [] | cb # later \<Rightarrow> [registered cb])"
  using instances_run_events[OF module_inv_fresh, of evs] by (simp add: fresh_module_def)

section \<open>Properties of the job orchestrator\<close>

lemma fst_try_block:
  "fst (try_block a opts h i inName outName st) = attempt_outcome a"
  by (simp add: try_block_def attempt_outcome_def Let_def split: outcome.split prod.split)

lemma frame_simps [simp]:
  "jobs (log_call c st) = jobs st"
  "jobs (on_progress h l st) = jobs st"
  "jobs (snd (createObjectURL b st)) = jobs st"
  "jobs (setJobs st) = jobs st"
  "calls (setJobs st) = calls st"
  "calls (update_job i f st) = calls st"
  "calls (on_progress h l st) = calls st"
  "calls (snd (createObjectURL b st)) = calls st"
  "calls (log_call c st) = calls st @ [c]"
  by (simp_all add: setJobs_def update_job_def log_call_def on_progress_def createObjectURL_def)

lemma map_update_job:
  "map g (jobs (update_job i f st)) = (map g (jobs st))[i := g (f (jobs st ! i))]"
  by (simp add: update_job_def map_update)

lemma list_update_map_same:
  "(map g xs)[j := g (xs ! j)] = map g xs"
  by (cases "j < length xs") (simp_all add: list_update_same_conv list_update_beyond)

lemma map_run_listener:
  assumes "\<And>j p. g (j\<lparr>progress := p\<rparr>) = g j"
  shows "map g (jobs (run_listener r l st)) = map g (jobs st)"
  by (cases l) (simp_all add: run_listener_def map_update_job assms list_update_map_same)

lemma map_emit_progress:
  assumes "\<And>j p. g (j\<lparr>progress := p\<rparr>) = g j"
  shows "map g (jobs (emit_progress h st r)) = map g (jobs st)"
proof -
  have "map g (jobs (foldl (\<lambda>s l. run_listener r l s) st ls)) = map g (jobs st)" for ls
    by (induction ls arbitrary: st) (simp_all add: map_run_listener[of g, OF assms])
  then show ?thesis by (simp add: emit_progress_def)
qed

lemma map_emit_all:
  assumes "\<And>j p. g (j\<lparr>progress := p\<rparr>) = g j"
  shows "map g (jobs (foldl (emit_progress h) st rs)) = map g (jobs st)"
  by (induction rs arbitrary: st) (simp_all add: map_emit_progress[of g, OF assms])

lemma calls_run_listener [simp]: "calls (run_listener r l st) = calls st"
  by (cases l) (simp_all add: run_listener_def)

lemma calls_emit_progress [simp]: "calls (emit_progress h st r) = calls st"
proof -
  have "calls (foldl (\<lambda>s l. run_listener r l s) st ls) = calls st" for ls
    by (induction ls arbitrary: st) simp_all
  then show ?thesis by (simp add: emit_progress_def)
qed

lemma calls_emit_all [simp]: "calls (foldl (emit_progress h) st rs) = calls st"
  by (induction rs arbitrary: st) simp_all

lemma objectURLs_simps [simp]:
  "objectURLs (log_call c st) = objectURLs st"
  "objectURLs (on_progress h l st) = objectURLs st"
  "objectURLs (setJobs st) = objectURLs st"
  "objectURLs (update_job i f st) = objectURLs st"
  by (simp_all add: setJobs_def update_job_def log_call_def on_progress_def)

lemma objectURLs_run_listener [simp]: "objectURLs (run_listener r l st) = objectURLs st"
  by (cases l) (simp_all add: run_listener_def)

lemma objectURLs_emit_progress [simp]: "objectURLs (emit_progress h st r) = objectURLs st"
proof -
  have "objectURLs (foldl (\<lambda>s l. run_listener r l s) st ls) = objectURLs st" for ls
    by (induction ls arbitrary: st) simp_all
  then show ?thesis by (simp add: emit_progress_def)
qed

lemma objectURLs_emit_all [simp]: "objectURLs (foldl (emit_progress h) st rs) = objectURLs st"
  by (induction rs arbitrary: st) simp_all

lemma nth_emit_all:
  assumes "\<And>j p. g (j\<lparr>progress := p\<rparr>) = g j" and "i < length (jobs st)"
  shows "g (jobs (foldl (emit_progress h) st rs) ! i) = g (jobs st ! i)"
proof -
  have "map g (jobs (foldl (emit_progress h) st rs)) ! i = map g (jobs st) ! i"
    by (simp add: map_emit_all[of g, OF assms(1)])
  then show ?thesis using assms(2) by simp
qed

lemma map_try_block:
  assumes g: "\<And>j p. g (j\<lparr>progress := p\<rparr>) = g j"
  shows "map g (jobs (snd (try_block a opts h i inName outName st))) =
    (case output_read a of
       None \<Rightarrow> map g (jobs st)
     | Some outU8 \<Rightarrow>
         (map g (jobs st))[i := g (finished (length (objectURLs st)) outName (jobs st ! i))])"
proof (cases "i < length (jobs st)")
  case True
  have fin: "g (finished u outName (jobs (foldl (emit_progress h) st' rs) ! i))
              = g (finished u outName (jobs st' ! i))"
    if "i < length (jobs st')" for st' rs u
    using nth_emit_all[of "\<lambda>j. g (finished u outName j)" i st' h rs] that
    by (simp add: finished_def)
  show ?thesis
    using True
    by (simp add: try_block_def output_read_def Let_def createObjectURL_def map_update_job
          map_emit_all[of g, OF g] fin[unfolded finished_def] finished_def
          split: outcome.split prod.split)
next
  case False
  then show ?thesis
    by (simp add: try_block_def output_read_def Let_def createObjectURL_def map_update_job
          map_emit_all[of g, OF g] list_update_beyond
          split: outcome.split prod.split)
qed

lemma output_read_outcome:
  "attempt_outcome a = Throws e \<Longrightarrow> output_read a = None"
  "attempt_outcome a = Returns u \<Longrightarrow> output_read a \<noteq> None"
  by (auto simp: attempt_outcome_def output_read_def split: outcome.splits if_splits)

lemma nth_update_job:
  "i < length (jobs st) \<Longrightarrow> jobs (update_job i f st) ! i = f (jobs st ! i)"
  by (simp add: update_job_def)

lemma process_job_cases:
  obtains st1 where
    "try_block a opts h i
        (name (file' (jobs (setJobs (update_job i (\<lambda>job. job\<lparr>status := Processing, progress := 0\<rparr>) st)) ! i)))
        (getOutputName (file' (jobs (setJobs (update_job i (\<lambda>job. job\<lparr>status := Processing, progress := 0\<rparr>) st)) ! i)) (format opts))
        (setJobs (update_job i (\<lambda>job. job\<lparr>status := Processing, progress := 0\<rparr>) st))
      = (attempt_outcome a, st1)"
  using fst_try_block by (metis prod.collapse)

lemma process_job_unfold:
  "process_job a opts h i st =
     (let st0 = setJobs (update_job i (\<lambda>job. job\<lparr>status := Processing, progress := 0\<rparr>) st);
          st1 = snd (try_block a opts h i (name (file' (jobs st0 ! i)))
                       (getOutputName (file' (jobs st0 ! i)) (format opts)) st0)
      in case attempt_outcome a of
           Hangs \<Rightarrow> (Hangs, st1)
         | Throws err \<Rightarrow>
             (Returns (),
              setJobs (update_job i
                 (\<lambda>job. job\<lparr>status := Error, error := Some (err_message err)\<rparr>) st1))
         | Returns u \<Rightarrow> (Returns (), setJobs st1))"
proof -
  obtain st1 where tb: "try_block a opts h i
        (name (file' (jobs (setJobs (update_job i (\<lambda>job. job\<lparr>status := Processing, progress := 0\<rparr>) st)) ! i)))
        (getOutputName (file' (jobs (setJobs (update_job i (\<lambda>job. job\<lparr>status := Processing, progress := 0\<rparr>) st)) ! i)) (format opts))
        (setJobs (update_job i (\<lambda>job. job\<lparr>status := Processing, progress := 0\<rparr>) st))
      = (attempt_outcome a, st1)"
    by (rule process_job_cases)
  show ?thesis
    unfolding process_job_def Let_def tb by (simp split: outcome.split)
qed

lemma nth_try_block:
  assumes g: "\<And>j p. g (j\<lparr>progress := p\<rparr>) = g j" and k: "k < length (jobs st)"
  shows "g (jobs (snd (try_block a opts h i inName outName st)) ! k) =
    (case output_read a of
       None \<Rightarrow> map g (jobs st)
     | Some outU8 \<Rightarrow>
         (map g (jobs st))[i := g (finished (length (objectURLs st)) outName (jobs st ! i))]) ! k"
proof -
  have "g (jobs (snd (try_block a opts h i inName outName st)) ! k)
          = map g (jobs (snd (try_block a opts h i inName outName st))) ! k"
    using k by simp
  then show ?thesis by (simp only: map_try_block[of g, OF g])
qed

lemma fst_process_job:
  "fst (process_job a opts h i st) = (if attempt_outcome a = Hangs then Hangs else Returns ())"
  by (simp add: process_job_unfold Let_def split: outcome.split)

lemma map_process_job:
  assumes i: "i < length (jobs st)" and nh: "attempt_outcome a \<noteq> Hangs"
  shows "map status (jobs (snd (process_job a opts h i st)))
           = (map status (jobs st))[i := final_status a]"
    and "map file' (jobs (snd (process_job a opts h i st))) = map file' (jobs st)"
    and "map error (jobs (snd (process_job a opts h i st)))
           = (map error (jobs st))[i := final_error a (error (jobs st ! i))]"
proof -
  show "map status (jobs (snd (process_job a opts h i st)))
           = (map status (jobs st))[i := final_status a]"
    using nh output_read_outcome[of a]
    by (cases "attempt_outcome a")
       (auto simp: process_job_unfold Let_def final_status_def map_update_job
          map_try_block[of status] finished_def)
  show "map file' (jobs (snd (process_job a opts h i st))) = map file' (jobs st)"
    using nh i
    by (cases "attempt_outcome a")
       (auto simp: process_job_unfold Let_def map_update_job nth_update_job
          map_try_block[of file'] nth_try_block[of file'] finished_def list_update_map_same
          split: option.split)
  show "map error (jobs (snd (process_job a opts h i st)))
           = (map error (jobs st))[i := final_error a (error (jobs st ! i))]"
    using nh i output_read_outcome[of a]
    by (cases "attempt_outcome a")
       (auto simp: process_job_unfold Let_def map_update_job nth_update_job final_error_def
          map_try_block[of error] nth_try_block[of error] finished_def list_update_map_same
          split: option.split)
qed

lemma calls_try_block:
  "calls (snd (try_block a opts h i inName outName st))
     = calls st @ attempt_calls a inName outName opts"
  by (simp add: try_block_def attempt_calls_def Let_def createObjectURL_def update_job_def
        log_call_def split: outcome.split prod.split)

lemma calls_process_job:
  assumes "i < length (jobs st)"
  shows "calls (snd (process_job a opts h i st))
     = calls st @ attempt_calls a (name (file' (jobs st ! i)))
                    (getOutputName (file' (jobs st ! i)) (format opts)) opts"
  using assms
  by (cases "attempt_outcome a")
     (simp_all add: process_job_unfold Let_def calls_try_block nth_update_job)

lemma take_Suc_update:
  "i < length xs \<Longrightarrow> take (Suc i) (xs[i := v]) = take i xs @ [v]"
  by (simp add: take_Suc_conv_app_nth)

lemma process_from_run:
  "(\<forall>k. i \<le> k \<and> k < length (jobs st) \<longrightarrow> attempt_outcome (attempt_of env k) \<noteq> Hangs) \<Longrightarrow>
   process_from env opts h i st = (r, st') \<Longrightarrow>
     r = Returns ()
     \<and> map file' (jobs st') = map file' (jobs st)
     \<and> map status (jobs st') =
         take i (map status (jobs st))
         @ map (\<lambda>k. final_status (attempt_of env k)) [i..<length (jobs st)]
     \<and> map error (jobs st') =
         take i (map error (jobs st))
         @ map (\<lambda>k. final_error (attempt_of env k) (error (jobs st ! k))) [i..<length (jobs st)]
     \<and> calls st' =
         calls st @ concat (map (job_calls env opts (map file' (jobs st))) [i..<length (jobs st)])"
proof (induction env opts h i st arbitrary: r st' rule: process_from.induct)
  case (1 env opts h i st)
  show ?case
  proof (cases "i < length (jobs st)")
    case False
    then show ?thesis
      using "1.prems"(2) by (simp add: process_from.simps[of env opts h i st])
  next
    case True
    let ?a = "attempt_of env i"
    let ?n = "length (jobs st)"
    have nh: "attempt_outcome ?a \<noteq> Hangs" using "1.prems"(1) True by simp
    obtain st1 where pj: "process_job ?a opts h i st = (Returns (), st1)"
      using fst_process_job[of ?a opts h i st] nh by (metis prod.collapse)
    have st1: "st1 = snd (process_job ?a opts h i st)" using pj by simp
    have rec: "process_from env opts h (Suc i) st1 = (r, st')"
      using "1.prems"(2) True pj by (simp add: process_from.simps[of env opts h i st])
    have len1: "length (jobs st1) = ?n" using st1 by simp
    have nh1: "\<forall>k. Suc i \<le> k \<and> k < length (jobs st1) \<longrightarrow>
                 attempt_outcome (attempt_of env k) \<noteq> Hangs"
      using "1.prems"(1) len1 by simp
    have IH: "r = Returns ()
     \<and> map file' (jobs st') = map file' (jobs st1)
     \<and> map status (jobs st') =
         take (Suc i) (map status (jobs st1))
         @ map (\<lambda>k. final_status (attempt_of env k)) [Suc i..<length (jobs st1)]
     \<and> map error (jobs st') =
         take (Suc i) (map error (jobs st1))
         @ map (\<lambda>k. final_error (attempt_of env k) (error (jobs st1 ! k))) [Suc i..<length (jobs st1)]
     \<and> calls st' =
         calls st1 @ concat (map (job_calls env opts (map file' (jobs st1))) [Suc i..<length (jobs st1)])"
      using "1.IH"[OF True pj[symmetric] refl nh1 rec] .
    note M = map_process_job[OF True nh, of opts h, folded st1]
    have upt: "[i..<?n] = i # [Suc i..<?n]" using True by (simp add: upt_conv_Cons)
    have err_later: "error (jobs st1 ! k) = error (jobs st ! k)"
      if "k \<in> set [Suc i..<?n]" for k
    proof -
      have "k < ?n" "k \<noteq> i" using that by auto
      then have "map error (jobs st1) ! k = map error (jobs st) ! k"
        by (simp add: M(3))
      then show ?thesis using \<open>k < ?n\<close> len1 by simp
    qed
    have err_map: "map (\<lambda>k. final_error (attempt_of env k) (error (jobs st1 ! k))) [Suc i..<?n]
         = map (\<lambda>k. final_error (attempt_of env k) (error (jobs st ! k))) [Suc i..<?n]"
      by (rule map_cong[OF refl]) (simp add: err_later)
    have c1: "calls st1 = calls st @ job_calls env opts (map file' (jobs st)) i"
      using calls_process_job[OF True, of ?a opts h] st1 True by (simp add: job_calls_def)
    show ?thesis
      using IH True
      by (simp add: len1 M upt take_Suc_update err_map c1)
  qed
qed

lemma acquire_frame [simp]:
  "jobs (snd (acquire env st)) = jobs st"
  "calls (snd (acquire env st)) = calls st"
  "shown (snd (acquire env st)) = shown st"
  "isProcessing (snd (acquire env st)) = isProcessing st"
  "objectURLs (snd (acquire env st)) = objectURLs st"
  by (simp_all add: acquire_def Let_def split: prod.split acquired.split)

lemma fst_acquire_engine:
  "engine st1 = engine st2 \<Longrightarrow> fst (acquire env st1) = fst (acquire env st2)"
  by (simp add: acquire_def Let_def split: prod.split acquired.split)


lemma handleProcess_run:
  assumes acq: "fst (acquire env st) = Returns h"
      and settle: "\<forall>k<length (jobs st). attempt_outcome (attempt_of env k) \<noteq> Hangs"
  shows "fst (handleProcess env opts st) = Returns ()"
    and "map file' (jobs (snd (handleProcess env opts st))) = map file' (jobs st)"
    and "map status (jobs (snd (handleProcess env opts st))) =
           map (\<lambda>k. final_status (attempt_of env k)) [0..<length (jobs st)]"
    and "map error (jobs (snd (handleProcess env opts st))) =
           map (\<lambda>k. final_error (attempt_of env k) (error (jobs st ! k))) [0..<length (jobs st)]"
    and "calls (snd (handleProcess env opts st)) =
           calls st @ concat (map (job_calls env opts (map file' (jobs st))) [0..<length (jobs st)])"
proof -
  have all: "fst (handleProcess env opts st) = Returns ()
    \<and> map file' (jobs (snd (handleProcess env opts st))) = map file' (jobs st)
    \<and> map status (jobs (snd (handleProcess env opts st))) =
           map (\<lambda>k. final_status (attempt_of env k)) [0..<length (jobs st)]
    \<and> map error (jobs (snd (handleProcess env opts st))) =
           map (\<lambda>k. final_error (attempt_of env k) (error (jobs st ! k))) [0..<length (jobs st)]
    \<and> calls (snd (handleProcess env opts st)) =
           calls st @ concat (map (job_calls env opts (map file' (jobs st))) [0..<length (jobs st)])"
  proof (cases "length (jobs st) = 0")
    case True
    then show ?thesis by (simp add: handleProcess_def)
  next
    case False
    let ?st0 = "st\<lparr>isProcessing := True\<rparr>"
    have "fst (acquire env ?st0) = Returns h"
      using acq fst_acquire_engine[of ?st0 st env] by simp
    then obtain st1 where a: "acquire env ?st0 = (Returns h, st1)"
      by (metis prod.collapse)
    have st1: "jobs st1 = jobs st" "calls st1 = calls st"
      using acquire_frame(1,2)[of env ?st0] a by simp_all
    obtain r st2 where run: "process_from env opts h 0 st1 = (r, st2)"
      by (cases "process_from env opts h 0 st1")
    have nh: "\<forall>k. 0 \<le> k \<and> k < length (jobs st1) \<longrightarrow>
                attempt_outcome (attempt_of env k) \<noteq> Hangs"
      using settle st1 by simp
    note R = process_from_run[OF nh run, unfolded st1]
    have hp: "handleProcess env opts st = (Returns (), st2\<lparr>isProcessing := False\<rparr>)"
      using False a run R by (simp add: handleProcess_def)
    show ?thesis using R by (simp add: hp)
  qed
  show "fst (handleProcess env opts st) = Returns ()"
    and "map file' (jobs (snd (handleProcess env opts st))) = map file' (jobs st)"
    and "map status (jobs (snd (handleProcess env opts st))) =
           map (\<lambda>k. final_status (attempt_of env k)) [0..<length (jobs st)]"
    and "map error (jobs (snd (handleProcess env opts st))) =
           map (\<lambda>k. final_error (attempt_of env k) (error (jobs st ! k))) [0..<length (jobs st)]"
    and "calls (snd (handleProcess env opts st)) =
           calls st @ concat (map (job_calls env opts (map file' (jobs st))) [0..<length (jobs st)])"
    using all by blast+
qed

lemma example_page_jobs:
  "jobs example_page =
     [\<lparr>file' = a_mov, outputName = ''a.mp4'', progress = 0, status = Pending, error = None, downloadUrl = None\<rparr>,
      \<lparr>file' = b_mov, outputName = ''b.mp4'', progress = 0, status = Pending, error = None, downloadUrl = None\<rparr>]"
  by (simp add: example_page_def onFilesSelected_def a_mov_def b_mov_def getOutputName_def
        strip_extension_def example_options_def fresh_page_def)

lemmas page_defs =
  onFilesSelected_def fresh_page_def fresh_module_def a_mov_def b_mov_def
  getOutputName_def strip_extension_def example_options_def



lemma example_acquired: "fst (acquire example_env example_page) = Returns 0"
  by (simp add: acquire_def getFFmpeg_def load_settles_def awaited_def registered_def
        example_env_def example_page_def page_defs)

lemma example_outcomes:
  "attempt_outcome (attempt_of example_env 0) = Returns ()"
  "attempt_outcome (attempt_of example_env 1) = Throws (JsThrown ''ErrnoError: FS error'')"
  by (simp_all add: example_env_def attempt_outcome_def good_attempt_def corrupt_attempt_def)

lemma example_settles:
  "\<forall>k<length (jobs example_page). attempt_outcome (attempt_of example_env k) \<noteq> Hangs"
  by (simp add: example_page_jobs example_env_def attempt_outcome_def good_attempt_def
        corrupt_attempt_def)


text \<open>
  Claim C3. When the page has jobs and the acquisition of the engine handle fails with
  \<open>e\<close>, \<open>handleProcess\<close> fails with \<open>e\<close> towards its caller; the job objects are exactly
  as before (status, progress, error message and download URL), nothing new is shown, no
  engine call is made and no object URL is created.
\<close>

theorem handleProcess_acquisition_failure:
  assumes "jobs st \<noteq> []" and "fst (acquire env st) = Throws e"
  shows "fst (handleProcess env opts st) = Throws e
     \<and> jobs (snd (handleProcess env opts st)) = jobs st
     \<and> shown (snd (handleProcess env opts st)) = shown st
     \<and> calls (snd (handleProcess env opts st)) = calls st
     \<and> objectURLs (snd (handleProcess env opts st)) = objectURLs st"
proof -
  let ?st0 = "st\<lparr>isProcessing := True\<rparr>"
  have "fst (acquire env ?st0) = Throws e"
    using assms(2) fst_acquire_engine[of ?st0 st env] by simp
  then obtain st1 where a: "acquire env ?st0 = (Throws e, st1)"
    by (metis prod.collapse)
  have st1: "jobs st1 = jobs st" "shown st1 = shown st" "calls st1 = calls st"
    "objectURLs st1 = objectURLs st"
    using acquire_frame[of env ?st0] a by simp_all
  have "handleProcess env opts st = (Throws e, st1)"
    using assms(1) a by (simp add: handleProcess_def)
  then show ?thesis using st1 by simp
qed

theorem handleProcess_acquisition_failure_witness:
  "jobs example_page \<noteq> []
   \<and> fst (acquire failing_load_env example_page) = Throws (JsError ''TypeError'' ''Failed to fetch'')
   \<and> fst (handleProcess failing_load_env example_options example_page)
        = Throws (JsError ''TypeError'' ''Failed to fetch'')
   \<and> map status (jobs (snd (handleProcess failing_load_env example_options example_page)))
        = [Pending, Pending]
   \<and> calls (snd (handleProcess failing_load_env example_options example_page)) = []"
proof -
  have ne: "jobs example_page \<noteq> []" by (simp add: example_page_jobs)
  have fails: "fst (acquire failing_load_env example_page) = Throws (JsError ''TypeError'' ''Failed to fetch'')"
    by (simp add: acquire_def getFFmpeg_def load_settles_def awaited_def registered_def
          failing_load_env_def example_page_def page_defs)
  have "calls example_page = []" by (simp add: example_page_def page_defs)
  then show ?thesis
    using handleProcess_acquisition_failure[OF ne fails, of example_options] ne fails
    by (simp add: example_page_jobs)
qed

text \<open>
  Claim C2 says that after every job, failed or not, the deletion of its input and of its
  output entry is attempted. The two \<open>deleteFile\<close> calls stand inside the \<open>try\<close> block
  after the job is marked done, so a failure before them skips both. In the example run
  \<open>b.mov\<close> is written into the engine's file system, its output cannot be read, the job
  ends in \<open>Error\<close>, and no \<open>deleteFile\<close> is issued for \<open>b.mov\<close> or \<open>b.mp4\<close>; for the
  successful \<open>a.mov\<close> both deletions are issued.
\<close>

theorem failed_job_entries_stay_in_engine:
  "status (jobs (snd (handleProcess example_env example_options example_page)) ! 1) = Error
   \<and> calls (snd (handleProcess example_env example_options example_page)) =
       [WriteFile ''a.mov'' [1, 2, 3],
        Exec (buildArgs ''a.mov'' ''a.mp4'' example_options),
        ReadFile ''a.mp4'', DeleteFile ''a.mov'', DeleteFile ''a.mp4'',
        WriteFile ''b.mov'' [9],
        Exec (buildArgs ''b.mov'' ''b.mp4'' example_options),
        ReadFile ''b.mp4'']"
proof -
  note R = handleProcess_run[OF example_acquired example_settles, of example_options]
  have two: "[0..<length (jobs example_page)] = [0, 1]"
    by (simp add: example_page_jobs upt_rec)
  have sts: "map status (jobs (snd (handleProcess example_env example_options example_page)))
          = [Done, Error]"
    using R(3)
    by (simp add: two final_status_def example_outcomes example_outcomes(2)[unfolded One_nat_def])
  have "length (map status (jobs (snd (handleProcess example_env example_options example_page))))
          = 2"
    by (simp only: sts) simp
  then have "status (jobs (snd (handleProcess example_env example_options example_page)) ! 1)
          = map status (jobs (snd (handleProcess example_env example_options example_page))) ! 1"
    by simp
  then have st: "status (jobs (snd (handleProcess example_env example_options example_page)) ! 1)
          = Error"
    by (simp only: sts) simp
  have "calls example_page = []" by (simp add: example_page_def page_defs)
  then have "calls (snd (handleProcess example_env example_options example_page)) =
       [WriteFile ''a.mov'' [1, 2, 3],
        Exec (buildArgs ''a.mov'' ''a.mp4'' example_options),
        ReadFile ''a.mp4'', DeleteFile ''a.mov'', DeleteFile ''a.mp4'',
        WriteFile ''b.mov'' [9],
        Exec (buildArgs ''b.mov'' ''b.mp4'' example_options),
        ReadFile ''b.mp4'']"
    using R(5)
    by (simp add: two job_calls_def attempt_calls_def example_page_jobs example_env_def
          good_attempt_def corrupt_attempt_def a_mov_def b_mov_def getOutputName_def
          strip_extension_def example_options_def)
  then show ?thesis using st by simp
qed

text \<open>
  On the success path both deletions are attempted, and how they settle changes neither
  the job nor the outcome of the block, short of hanging.
\<close>

lemma deletions_swallowed:
  assumes "output_read a = Some b" and "deleteInput_result a \<noteq> Hangs"
    and "deleteOutput_result a \<noteq> Hangs"
  shows "attempt_outcome a = Returns ()"
    and "attempt_calls a inName outName opts =
           [WriteFile inName (case arrayBuffer_result a of Returns d \<Rightarrow> d | _ \<Rightarrow> []),
            Exec (buildArgs inName outName opts), ReadFile outName,
            DeleteFile inName, DeleteFile outName]"
  using assms
  by (auto simp: output_read_def attempt_outcome_def attempt_calls_def split: outcome.splits)

text \<open>
  Claim C5 says that a job that reached \<open>Done\<close> keeps progress 100 for the rest of the
  run. Every job's progress handler stays registered on the engine object (\<open>on\<close> adds a
  listener, nothing removes one), so a progress event of a later job runs the handlers of
  all earlier jobs too. In the run below both jobs succeed and the engine reports
  \<open>0.5\<close> while the second job is processed: the first job, already \<open>Done\<close> at 100, is
  shown at 50 and stays there. Its status is not touched.
\<close>

theorem finished_job_progress_overwritten:
  "map (map (\<lambda>j. (status j, progress j)))
       (shown (snd (handleProcess later_progress_env example_options example_page)))
     = [[(Processing, 0), (Pending, 0)], [(Processing, 50), (Pending, 0)],
        [(Processing, 100), (Pending, 0)], [(Done, 100), (Pending, 0)],
        [(Done, 100), (Processing, 0)], [(Done, 50), (Processing, 0)],
        [(Done, 50), (Processing, 50)], [(Done, 50), (Done, 100)]]
   \<and> map (\<lambda>j. (status j, progress j))
         (jobs (snd (handleProcess later_progress_env example_options example_page)))
     = [(Done, 50), (Done, 100)]"
  by code_simp

text \<open>Progress events never change a status, an error message or a download URL.\<close>

lemma progress_events_keep_status:
  "map status (jobs (foldl (emit_progress h) st rs)) = map status (jobs st)"
  "map error (jobs (foldl (emit_progress h) st rs)) = map error (jobs st)"
  "map downloadUrl (jobs (foldl (emit_progress h) st rs)) = map downloadUrl (jobs st)"
  by (simp_all add: map_emit_all)

text \<open>
  The progress handler records \<open>min 100 (round (r * 100))\<close>: bounded above by 100, and not
  negative when \<open>r\<close> is not negative.
\<close>

lemma progress_handler_records:
  "j < length (jobs st) \<Longrightarrow>
   progress (jobs (run_listener r (JobProgress j) st) ! j) = progress_percent r"
  by (simp add: run_listener_def setJobs_def update_job_def)

lemma progress_percent_bounds:
  "progress_percent r \<le> 100" "0 \<le> r \<Longrightarrow> 0 \<le> progress_percent r"
  by (simp_all add: progress_percent_def math_round_def)

text \<open>
  Claim C8 says that the recorded progress is clamped to the range from 0 to 100. The
  handler has the upper clamp only. When the engine reports \<open>-0.5\<close> while the job is
  processed, the job is shown as processing with progress \<open>-50\<close>.
\<close>

theorem negative_progress_recorded:
  "progress_percent (- 1 / 2) = - 50
   \<and> map (map (\<lambda>j. (status j, progress j)))
        (shown (snd (handleProcess negative_progress_env example_options one_job_page)))
     = [[(Processing, 0)], [(Processing, - 50)], [(Done, 100)]]"
  by code_simp

section \<open>Properties of the archive export\<close>

text \<open>
  Claim C9 as stated: exporting an empty list does nothing. \<open>zipBlobsAsZipFile\<close> called
  with no files on the fresh page clicks a download of an empty archive.
\<close>

theorem zipBlobsAsZipFile_empty_list_downloads:
  "downloads (snd (zipBlobsAsZipFile [] ''processed-videos.zip'' fresh_page))
     = [(''processed-videos.zip'', Some (ZipBlob []))]
   \<and> snd (zipBlobsAsZipFile [] ''processed-videos.zip'' fresh_page) \<noteq> fresh_page"
  by (simp add: zipBlobsAsZipFile_def createObjectURL_def blob_at_def revokeObjectURL_def
        fresh_page_def)

text \<open>
  Claim C9, amended: \<open>handleZip\<close>, run when no job is done with a download URL, returns
  normally and leaves the whole state as it is: no archive, no object URL, no download.
\<close>

theorem handleZip_nothing_ready:
  "filter (\<lambda>j. status j = Done \<and> downloadUrl j \<noteq> None) (jobs st) = [] \<Longrightarrow>
   handleZip st = (Returns (), st)"
  by (simp add: handleZip_def)

theorem handleZip_nothing_ready_witness:
  "filter (\<lambda>j. status j = Done \<and> downloadUrl j \<noteq> None) (jobs example_page) = []
   \<and> handleZip example_page = (Returns (), example_page)"
proof -
  have none: "filter (\<lambda>j. status j = Done \<and> downloadUrl j \<noteq> None) (jobs example_page) = []"
    by (simp add: example_page_jobs)
  show ?thesis using handleZip_nothing_ready[OF none] none by simp
qed

end
